theory Spec2Isabelle
  imports Complex_Main
begin

section \<open>The service worker of static/service-worker.js\<close>

text \<open>
  The worker is five event handlers over objects of the browser: the cache storage
  (\<^verbatim>\<open>caches\<close>), the network (\<^verbatim>\<open>fetch\<close>), the notifications of the registration and
  the window clients. The handlers are translated line by line; the browser's objects
  are the state they read and change:
  \<^item> the cache storage is the list of the origin's named caches, in the order of their
    creation, each cache a store of responses keyed by request URL;
  \<^item> the network is a parameter: what \<^verbatim>\<open>fetch\<close> answers for a request, or nothing
    when it rejects;
  \<^item> every other call to the browser (a network fetch, a notification shown or closed,
    a window focused or opened) is appended to a log, the \<open>actions\<close> of the world, so
    that "no network fetch" and "exactly one notification" are statements about it.
  A promise chain given to \<^verbatim>\<open>waitUntil\<close> or \<^verbatim>\<open>respondWith\<close> is run to its end
  inside the handler that starts it. The \<^verbatim>\<open>put\<close> of the fetch handler is given to
  neither: the handler leaves it pending, and it settles later, as a step of its own, or
  never, when the browser stops the worker first.
\<close>

subsection \<open>JavaScript values\<close>

text \<open>
  The values a push payload parses to, with \<^verbatim>\<open>undefined\<close> for a property that is
  not there. A number is the real it denotes; an object is the list of its properties.
\<close>

datatype js_value =
    JUndefined
  | JNull
  | JBool bool
  | JNum real
  | JStr string
  | JArr "js_value list"
  | JObj "(string \<times> js_value) list"

datatype js_error = TypeError | SyntaxError | QuotaExceededError

text \<open>JavaScript's \<^verbatim>\<open>ToBoolean\<close>: the falsy values are \<^verbatim>\<open>undefined\<close>, \<^verbatim>\<open>null\<close>,
  \<^verbatim>\<open>false\<close>, zero and the empty string.\<close>

fun truthy :: "js_value \<Rightarrow> bool" where
  "truthy JUndefined = False"
| "truthy JNull = False"
| "truthy (JBool b) = b"
| "truthy (JNum x) = (x \<noteq> 0)"
| "truthy (JStr s) = (s \<noteq> [])"
| "truthy (JArr vs) = True"
| "truthy (JObj ps) = True"

text \<open>\<^verbatim>\<open>a || b\<close>\<close>

definition js_or :: "js_value \<Rightarrow> js_value \<Rightarrow> js_value" where
  "js_or a b = (if truthy a then a else b)"

text \<open>
  \<^verbatim>\<open>v.k\<close> for the property names the handlers read (\<^verbatim>\<open>title\<close>, \<^verbatim>\<open>body\<close>,
  \<^verbatim>\<open>url\<close>, none of which a prototype defines): reading a property of \<^verbatim>\<open>null\<close> or
  \<^verbatim>\<open>undefined\<close> throws a TypeError, an object gives its own property (the last one
  listed under that name) or \<^verbatim>\<open>undefined\<close>, every other value gives \<^verbatim>\<open>undefined\<close>.
\<close>

fun get_prop :: "js_value \<Rightarrow> string \<Rightarrow> js_error + js_value" where
  "get_prop JUndefined k = Inl TypeError"
| "get_prop JNull k = Inl TypeError"
| "get_prop (JObj ps) k = Inr (case map_of (rev ps) k of None \<Rightarrow> JUndefined | Some v \<Rightarrow> v)"
| "get_prop v k = Inr JUndefined"

text \<open>\<^verbatim>\<open>v?.k\<close>: \<^verbatim>\<open>undefined\<close> where \<^verbatim>\<open>v.k\<close> would throw.\<close>

definition get_prop_opt :: "js_value \<Rightarrow> string \<Rightarrow> js_value" where
  "get_prop_opt v k = (case get_prop v k of Inl e \<Rightarrow> JUndefined | Inr x \<Rightarrow> x)"

subsection \<open>Requests, responses, caches\<close>

text \<open>
  A request has a method and a URL. The URL is the one the browser requests: the strings
  of the asset list stand for the URLs they resolve to, and two requests are for the same
  URL when their strings are equal.
\<close>

record request =
  req_method :: string
  req_url :: string

text \<open>
  What the model keeps of a response: its status, its content, and whether its
  \<^verbatim>\<open>Vary\<close> header holds \<^verbatim>\<open>*\<close>.
\<close>

record response =
  res_status :: nat
  res_body :: string
  res_vary_star :: bool

text \<open>\<^verbatim>\<open>Response.ok\<close>\<close>

definition res_ok :: "response \<Rightarrow> bool" where
  "res_ok r = (200 \<le> res_status r \<and> res_status r \<le> 299)"

text \<open>A cache stores one response per request URL.\<close>

type_synonym cache = "string \<rightharpoonup> response"

text \<open>The cache storage of the origin: its named caches, oldest first.\<close>

type_synonym cache_storage = "(string \<times> cache) list"

text \<open>
  A notification, as the arguments of \<^verbatim>\<open>showNotification\<close>: the values passed as title
  and body, and the options \<^verbatim>\<open>data\<close>, \<^verbatim>\<open>icon\<close> and \<^verbatim>\<open>badge\<close>.
\<close>

record notification =
  title :: js_value
  body :: js_value
  data :: js_value
  icon :: string
  badge :: string

text \<open>A window client, with the URL the browser reports for it.\<close>

record window_client =
  client_id :: nat
  client_url :: string

text \<open>The calls to the browser that the log records.\<close>

datatype action =
    NetFetch request
  | SkipWaiting
  | ClientsClaim
  | ShowNotification notification
  | CloseNotification notification
  | Focus window_client
  | OpenWindow js_value

text \<open>
  The world of the worker: the cache storage, the log, oldest call first, the puts that
  the fetch handler has started and not waited for, each with its request and its copy of
  the response, and whether the quota of the origin is used up, so that the browser has
  no room to store one more response.
\<close>

record world =
  storage :: cache_storage
  actions :: "action list"
  pending :: "(request \<times> response) list"
  storage_full :: bool

text \<open>\<^verbatim>\<open>cache.match(request)\<close>: only a GET request matches, by its URL.\<close>

definition cache_match :: "cache \<Rightarrow> request \<Rightarrow> response option" where
  "cache_match c request = (if req_method request = ''GET'' then c (req_url request) else None)"

text \<open>\<^verbatim>\<open>caches.match(request)\<close>: the first match among the caches of the storage,
  in the order of their creation.\<close>

fun caches_match :: "cache_storage \<Rightarrow> request \<Rightarrow> response option" where
  "caches_match [] request = None"
| "caches_match ((n, c) # st) request =
     (case cache_match c request of
        Some r \<Rightarrow> Some r
      | None \<Rightarrow> caches_match st request)"

text \<open>\<^verbatim>\<open>caches.open(name)\<close> creates the cache when the storage has none of that name.\<close>

definition caches_open :: "string \<Rightarrow> cache_storage \<Rightarrow> cache_storage" where
  "caches_open name st =
     (case map_of st name of
        Some c \<Rightarrow> st
      | None \<Rightarrow> st @ [(name, Map.empty)])"

text \<open>Storing a response under a URL in the cache of a name, in the place of the one
  stored there before, if any.\<close>

definition cache_store :: "string \<Rightarrow> string \<Rightarrow> response \<Rightarrow> cache_storage \<Rightarrow> cache_storage" where
  "cache_store name u res st =
     map (\<lambda>(n, c). if n = name then (n, c(u \<mapsto> res)) else (n, c)) st"

text \<open>
  The scheme of a request URL is http or https. A path from the root stands for the URL
  it resolves to at the location of the worker, which is one of them.
\<close>

definition http_url :: "string \<Rightarrow> bool" where
  "http_url u = (take 1 u = ''/'' \<or> take 7 u = ''http://'' \<or> take 8 u = ''https://'')"

text \<open>
  What the browser's cache accepts: a GET request with an http or https URL, and a
  response that is not partial (status 206) and whose \<^verbatim>\<open>Vary\<close> header does not hold
  \<^verbatim>\<open>*\<close>. The status is not looked at otherwise.
\<close>

definition put_accepts :: "request \<Rightarrow> response \<Rightarrow> bool" where
  "put_accepts request res =
     (req_method request = ''GET'' \<and> http_url (req_url request) \<and>
      res_status res \<noteq> 206 \<and> \<not> res_vary_star res)"

text \<open>\<^verbatim>\<open>c.put(request, response)\<close> on the cache of that name: the promise is rejected
  and nothing is stored when the cache does not accept the pair (a TypeError), or when
  there is no room left (\<open>full\<close>).\<close>

definition cache_put ::
  "bool \<Rightarrow> string \<Rightarrow> request \<Rightarrow> response \<Rightarrow> cache_storage \<Rightarrow> js_error + cache_storage" where
  "cache_put full name request res st =
     (if \<not> put_accepts request res then Inl TypeError
      else if full then Inl QuotaExceededError
      else Inr (cache_store name (req_url request) res st))"

text \<open>The contents of the cache of a name (nothing when there is no such cache).\<close>

definition cache_of :: "cache_storage \<Rightarrow> string \<Rightarrow> cache" where
  "cache_of st name = (case map_of st name of Some c \<Rightarrow> c | None \<Rightarrow> Map.empty)"

text \<open>The caches created before the one of a name.\<close>

definition earlier_caches :: "string \<Rightarrow> cache_storage \<Rightarrow> cache_storage" where
  "earlier_caches name st = takeWhile (\<lambda>(n, c). n \<noteq> name) st"

subsection \<open>The constants of the worker\<close>

definition CACHE :: string where
  "CACHE = ''bailsaas-v1''"

definition ASSETS :: "string list" where
  "ASSETS = [''/'', ''/static/manifest.webmanifest'']"

text \<open>The cache bucket: the cache named \<open>CACHE\<close>.\<close>

definition bucket :: "world \<Rightarrow> cache" where
  "bucket w = cache_of (storage w) CACHE"

subsection \<open>install and activate\<close>

text \<open>The request \<^verbatim>\<open>addAll\<close> makes of a URL.\<close>

definition get_request :: "string \<Rightarrow> request" where
  "get_request u = \<lparr>req_method = ''GET'', req_url = u\<rparr>"

text \<open>
  \<^verbatim>\<open>c.addAll(urls)\<close>: every URL is fetched; when each fetch answers with an ok status
  and a response the cache accepts, the responses are stored, each under its URL, and the
  promise is fulfilled (\<open>True\<close>); when a fetch rejects or answers otherwise, or when
  there is no room left for the responses, nothing is stored and the promise is rejected
  (\<open>False\<close>).
\<close>

fun fetch_all :: "(request \<Rightarrow> response option) \<Rightarrow> string list \<Rightarrow> (string \<times> response) list option" where
  "fetch_all net [] = Some []"
| "fetch_all net (u # us) =
     (case net (get_request u) of
        None \<Rightarrow> None
      | Some r \<Rightarrow>
          if res_ok r \<and> put_accepts (get_request u) r
          then (case fetch_all net us of None \<Rightarrow> None | Some ps \<Rightarrow> Some ((u, r) # ps))
          else None)"

text \<open>The stores that \<^verbatim>\<open>addAll\<close> makes once every response has passed its checks.\<close>

fun put_all :: "string \<Rightarrow> (string \<times> response) list \<Rightarrow> cache_storage \<Rightarrow> cache_storage" where
  "put_all name [] st = st"
| "put_all name ((u, r) # ps) st = put_all name ps (cache_store name u r st)"

definition add_all ::
  "(request \<Rightarrow> response option) \<Rightarrow> string \<Rightarrow> string list \<Rightarrow> world \<Rightarrow> bool \<times> world" where
  "add_all net name urls w =
     (let w1 = w\<lparr>actions := actions w @ map (\<lambda>u. NetFetch (get_request u)) urls\<rparr>
      in case (if storage_full w \<and> urls \<noteq> [] then None else fetch_all net urls) of
           None \<Rightarrow> (False, w1)
         | Some ps \<Rightarrow> (True, w1\<lparr>storage := put_all name ps (storage w1)\<rparr>))"

text \<open>
  \<^verbatim>\<open>e.waitUntil(caches.open(CACHE).then((c) => c.addAll(ASSETS))); self.skipWaiting();\<close>
  The result is whether the promise given to \<^verbatim>\<open>waitUntil\<close> is fulfilled, that is,
  whether the installation succeeds. \<^verbatim>\<open>skipWaiting\<close> is called before the promise
  chain runs.
\<close>

definition install_handler :: "(request \<Rightarrow> response option) \<Rightarrow> world \<Rightarrow> bool \<times> world" where
  "install_handler net w =
     add_all net CACHE ASSETS
       (w\<lparr>actions := actions w @ [SkipWaiting], storage := caches_open CACHE (storage w)\<rparr>)"


subsection \<open>fetch\<close>

datatype fetch_outcome =
    PassThrough
  | Responded response
  | Rejected

text \<open>
  \<open>PassThrough\<close>: the handler returns without \<^verbatim>\<open>respondWith\<close> and the browser handles
  the request itself. \<open>Responded r\<close>: the promise given to \<^verbatim>\<open>respondWith\<close> is
  fulfilled with \<open>r\<close>. \<open>Rejected\<close>: that promise is rejected, since \<^verbatim>\<open>fetch\<close> rejected
  and nothing catches it. A cached response is an object and so truthy: \<^verbatim>\<open>cached || ...\<close>
  takes the right-hand side exactly when \<^verbatim>\<open>caches.match\<close> found nothing.
  \<^verbatim>\<open>caches.open(CACHE).then((c) => c.put(request, copy))\<close> is started and not waited
  for: the response is returned with the put pending.
\<close>

definition fetch_handler ::
  "(request \<Rightarrow> response option) \<Rightarrow> request \<Rightarrow> world \<Rightarrow> fetch_outcome \<times> world" where
  "fetch_handler net request w =
     (if req_method request \<noteq> ''GET'' then (PassThrough, w)
      else case caches_match (storage w) request of
          Some cached \<Rightarrow> (Responded cached, w)
        | None \<Rightarrow>
            (case net request of
               None \<Rightarrow> (Rejected, w\<lparr>actions := actions w @ [NetFetch request]\<rparr>)
             | Some res \<Rightarrow>
                 (Responded res,
                  w\<lparr>actions := actions w @ [NetFetch request],
                    pending := pending w @ [(request, res)]\<rparr>)))"

text \<open>
  The \<open>i\<close>-th pending put settles: \<^verbatim>\<open>caches.open(CACHE)\<close>, then
  \<^verbatim>\<open>c.put(request, copy)\<close>. When the cache rejects the put nothing is stored, and
  nothing reports it, since the source drops the promise.
\<close>

definition settle_put :: "nat \<Rightarrow> world \<Rightarrow> world" where
  "settle_put i w =
     (if i < length (pending w)
      then (case pending w ! i of
              (request, copy) \<Rightarrow>
                (case cache_put (storage_full w) CACHE request copy
                        (caches_open CACHE (storage w)) of
                   Inl err \<Rightarrow>
                     w\<lparr>storage := caches_open CACHE (storage w),
                       pending := take i (pending w) @ drop (Suc i) (pending w)\<rparr>
                 | Inr st \<Rightarrow>
                     w\<lparr>storage := st,
                       pending := take i (pending w) @ drop (Suc i) (pending w)\<rparr>))
      else w)"

subsection \<open>push\<close>

text \<open>
  The data of a push event: none (\<^verbatim>\<open>e.data\<close> is \<^verbatim>\<open>null\<close>), a text that is not JSON,
  or a text that parses to a value.
\<close>

datatype push_data =
    NoData
  | NotJson
  | Json js_value

text \<open>\<^verbatim>\<open>e.data.json()\<close>\<close>

fun data_json :: "push_data \<Rightarrow> js_error + js_value" where
  "data_json NoData = Inl TypeError"
| "data_json NotJson = Inl SyntaxError"
| "data_json (Json v) = Inr v"

text \<open>\<^verbatim>\<open>let data = {}; try { data = e.data.json(); } catch(_) {}\<close>\<close>

definition push_payload :: "push_data \<Rightarrow> js_value" where
  "push_payload d = (case data_json d of Inl e \<Rightarrow> JObj [] | Inr v \<Rightarrow> v)"

text \<open>
  The rest of the handler is outside the \<^verbatim>\<open>try\<close>: an error thrown by
  \<^verbatim>\<open>data.title\<close> ends the handler (\<open>Inl\<close>) before anything is shown.
\<close>

definition push_handler :: "push_data \<Rightarrow> world \<Rightarrow> js_error + world" where
  "push_handler d w =
     (let payload = push_payload d in
      case get_prop payload ''title'' of
        Inl e \<Rightarrow> Inl e
      | Inr t \<Rightarrow>
     (case get_prop payload ''body'' of
        Inl e \<Rightarrow> Inl e
      | Inr b \<Rightarrow>
     (case get_prop payload ''url'' of
        Inl e \<Rightarrow> Inl e
      | Inr u \<Rightarrow>
          Inr (w\<lparr>actions := actions w @
                 [ShowNotification
                    \<lparr>title = js_or t (JStr ''BailSaaS''),
                     body = js_or b (JStr ''''),
                     data = JObj [(''url'', js_or u (JStr ''/''))],
                     icon = ''/static/icons/icon-192.png'',
                     badge = ''/static/icons/icon-192.png''\<rparr>]\<rparr>))))"

subsection \<open>notificationclick\<close>

text \<open>
  The loop over the window clients that \<^verbatim>\<open>clients.matchAll({ type: "window" })\<close>
  gives: the first client whose URL is the target, by \<^verbatim>\<open>===\<close>, is focused, and a
  window is opened when the loop ends without one. A window client has a
  \<^verbatim>\<open>focus\<close> method, so \<^verbatim>\<open>"focus" in c\<close> holds of each.
\<close>

fun click_loop :: "js_value \<Rightarrow> window_client list \<Rightarrow> action" where
  "click_loop url [] = OpenWindow url"
| "click_loop url (c # list) =
     (if JStr (client_url c) = url then Focus c else click_loop url list)"

text \<open>\<^verbatim>\<open>const url = e.notification.data?.url || "/";\<close>\<close>

definition click_url :: "notification \<Rightarrow> js_value" where
  "click_url n = js_or (get_prop_opt (data n) ''url'') (JStr ''/'')"

definition notificationclick_handler :: "window_client list \<Rightarrow> notification \<Rightarrow> world \<Rightarrow> world" where
  "notificationclick_handler list n w =
     w\<lparr>actions := actions w @ [CloseNotification n, click_loop (click_url n) list]\<rparr>"

text \<open>
  What the specification means by a window showing the target URL: the URL of the window
  is the one the target resolves to at the origin of the worker. The targets resolved here
  are paths from the root, as the default \<^verbatim>\<open>/\<close> is, and absolute URLs.
\<close>

definition resolve_url :: "string \<Rightarrow> string \<Rightarrow> string" where
  "resolve_url origin t = (if take 1 t = ''/'' then origin @ t else t)"

definition shows_url :: "string \<Rightarrow> window_client \<Rightarrow> js_value \<Rightarrow> bool" where
  "shows_url origin c target =
     (case target of JStr t \<Rightarrow> client_url c = resolve_url origin t | _ \<Rightarrow> False)"

subsection \<open>All events\<close>




subsection \<open>Example responses, networks and worlds\<close>

definition page :: response where
  "page = \<lparr>res_status = 200, res_body = ''page'', res_vary_star = False\<rparr>"

definition stale :: response where
  "stale = \<lparr>res_status = 200, res_body = ''stale'', res_vary_star = False\<rparr>"


definition server_error :: response where
  "server_error = \<lparr>res_status = 500, res_body = ''error'', res_vary_star = False\<rparr>"


text \<open>Networks that answer every request with the same response, and one that is down.\<close>

definition online :: "request \<Rightarrow> response option" where
  "online request = Some page"


definition offline :: "request \<Rightarrow> response option" where
  "offline request = None"

text \<open>A storage with no cache yet.\<close>

definition fresh_world :: world where
  "fresh_world = \<lparr>storage = [], actions = [], pending = [], storage_full = False\<rparr>"

text \<open>The bucket after some use: it holds the start page and a script.\<close>

definition used_world :: world where
  "used_world =
     \<lparr>storage = [(CACHE, [''/'' \<mapsto> stale, ''/app.js'' \<mapsto> page])], actions = [], pending = [], storage_full = False\<rparr>"


text \<open>A storage in which a cache created before the bucket holds the start page too.\<close>

definition shadowed_world :: world where
  "shadowed_world =
     \<lparr>storage = [(''bailsaas-v0'', [''/'' \<mapsto> stale]), (CACHE, [''/'' \<mapsto> page])],
      actions = [], pending = [], storage_full = False\<rparr>"

text \<open>The notification that the push handler shows for a payload without a url.\<close>

definition default_notification :: notification where
  "default_notification =
     \<lparr>title = JStr ''BailSaaS'', body = JStr '''', data = JObj [(''url'', JStr ''/'')],
      icon = ''/static/icons/icon-192.png'', badge = ''/static/icons/icon-192.png''\<rparr>"

text \<open>Two open windows, and a notification whose data holds a given click target.\<close>

definition home_window :: window_client where
  "home_window = \<lparr>client_id = 1, client_url = ''https://app.example/''\<rparr>"

definition cases_window :: window_client where
  "cases_window = \<lparr>client_id = 2, client_url = ''https://app.example/cases''\<rparr>"

definition cases_notification :: "string \<Rightarrow> notification" where
  "cases_notification target =
     \<lparr>title = JStr ''Court date'', body = JStr ''Tomorrow'',
      data = JObj [(''url'', JStr target)],
      icon = ''/static/icons/icon-192.png'', badge = ''/static/icons/icon-192.png''\<rparr>"

section \<open>The cache storage\<close>

lemma map_of_cache_store:
  "map_of (cache_store name u res st) k =
     (case map_of st k of
        None \<Rightarrow> None
      | Some c \<Rightarrow> Some (if k = name then c(u \<mapsto> res) else c))"
proof (induction st)
  case Nil
  then show ?case by (simp add: cache_store_def)
next
  case (Cons p st)
  obtain n c where p: "p = (n, c)" by (cases p)
  have step: "cache_store name u res (p # st) =
      (if n = name then (n, c(u \<mapsto> res)) else (n, c)) # cache_store name u res st"
    using p by (simp add: cache_store_def)
  show ?case
    unfolding step using Cons.IH p
    by (cases "k = n") (auto simp del: fun_upd_apply simp add: fun_upd_same fun_upd_other)
qed

lemma cache_of_cache_store:
  "cache_of (cache_store name u res st) k =
     (if k = name \<and> map_of st k \<noteq> None then (cache_of st k)(u \<mapsto> res) else cache_of st k)"
  by (auto simp: cache_of_def map_of_cache_store split: option.splits)

lemma map_of_caches_open:
  "map_of (caches_open name st) k =
     (if k = name \<and> map_of st k = None then Some Map.empty else map_of st k)"
  by (auto simp: caches_open_def map_add_def split: option.splits)

lemma cache_of_caches_open: "cache_of (caches_open name st) k = cache_of st k"
  by (auto simp: cache_of_def map_of_caches_open split: option.splits)



lemma caches_match_None_iff:
  "caches_match st request = None \<longleftrightarrow> (\<forall>(n, c) \<in> set st. cache_match c request = None)"
  by (induction st) (auto split: option.splits)

lemma caches_match_miss_cache_of:
  assumes "caches_match st request = None" and "req_method request = ''GET''"
  shows "cache_of st name (req_url request) = None"
proof (cases "map_of st name")
  case None
  then show ?thesis by (simp add: cache_of_def)
next
  case (Some c)
  then have "(name, c) \<in> set st" by (rule map_of_SomeD)
  with assms(1) have "cache_match c request = None"
    by (auto simp: caches_match_None_iff)
  with Some assms(2) show ?thesis by (simp add: cache_of_def cache_match_def)
qed


text \<open>\<^verbatim>\<open>caches.match\<close> with the bucket in the storage: the caches created before it are
  looked through first.\<close>

lemma caches_match_bucket_hit:
  assumes "map_of st name = Some c0" and "c0 (req_url request) = Some r0"
    and "req_method request = ''GET''"
  shows "caches_match st request =
           Some (case caches_match (earlier_caches name st) request of
                   Some r \<Rightarrow> r
                 | None \<Rightarrow> r0)"
  using assms(1)
proof (induction st)
  case Nil
  then show ?case by simp
next
  case (Cons p st)
  obtain n c where p: "p = (n, c)" by (cases p)
  show ?case
  proof (cases "n = name")
    case True
    with Cons.prems p have "c = c0" by simp
    with True p assms(2,3) show ?thesis
      by (simp add: earlier_caches_def cache_match_def)
  next
    case False
    with Cons.prems p have "map_of st name = Some c0" by simp
    then have ih: "caches_match st request =
           Some (case caches_match (earlier_caches name st) request of
                   Some r \<Rightarrow> r
                 | None \<Rightarrow> r0)"
      by (rule Cons.IH)
    have e: "earlier_caches name (p # st) = (n, c) # earlier_caches name st"
      using False p by (simp add: earlier_caches_def)
    show ?thesis unfolding e using p ih
      by (cases "cache_match c request") simp_all
  qed
qed

lemma bucket_after_store:
  "cache_of (cache_store CACHE u res (caches_open CACHE st)) CACHE = (cache_of st CACHE)(u \<mapsto> res)"
proof -
  have "map_of (caches_open CACHE st) CACHE \<noteq> None"
    by (simp add: map_of_caches_open)
  then have "cache_of (cache_store CACHE u res (caches_open CACHE st)) CACHE =
      (cache_of (caches_open CACHE st) CACHE)(u \<mapsto> res)"
    by (simp add: cache_of_cache_store del: fun_upd_apply)
  then show ?thesis by (simp only: cache_of_caches_open)
qed


section \<open>The handlers, step by step\<close>

subsection \<open>fetch and the pending put\<close>

lemma fetch_miss_world:
  assumes "req_method request = ''GET''" and "caches_match (storage w) request = None"
    and "net request = Some res"
  shows "fetch_handler net request w =
           (Responded res,
            w\<lparr>actions := actions w @ [NetFetch request],
              pending := pending w @ [(request, res)]\<rparr>)"
  using assms by (simp add: fetch_handler_def)


text \<open>The handler starts a put only for a URL that the bucket does not hold.\<close>

lemma fetch_pending:
  "pending (snd (fetch_handler net request w)) = pending w \<or>
   (bucket w (req_url request) = None \<and>
    (\<exists>res. pending (snd (fetch_handler net request w)) = pending w @ [(request, res)]))"
proof (cases "req_method request = ''GET'' \<and> caches_match (storage w) request = None \<and>
    net request \<noteq> None")
  case False
  then show ?thesis by (auto simp: fetch_handler_def split: option.splits)
next
  case True
  then obtain res where res: "net request = Some res" by auto
  from True have get: "req_method request = ''GET''"
    and miss: "caches_match (storage w) request = None" by simp_all
  have "bucket w (req_url request) = None"
    unfolding bucket_def using miss get by (rule caches_match_miss_cache_of)
  moreover have "pending (snd (fetch_handler net request w)) = pending w @ [(request, res)]"
    using fetch_miss_world [of request w net res] get miss res by simp
  ultimately show ?thesis by blast
qed


lemma settle_put_accepted:
  assumes "i < length (pending w)" and "pending w ! i = (request, res)"
    and "put_accepts request res" and "\<not> storage_full w"
  shows "settle_put i w =
           w\<lparr>storage := cache_store CACHE (req_url request) res (caches_open CACHE (storage w)),
             pending := take i (pending w) @ drop (Suc i) (pending w)\<rparr>"
  using assms by (simp add: settle_put_def cache_put_def)

lemma settle_put_refused:
  assumes "i < length (pending w)" and "pending w ! i = (request, res)"
    and "\<not> put_accepts request res \<or> storage_full w"
  shows "settle_put i w =
           w\<lparr>storage := caches_open CACHE (storage w),
             pending := take i (pending w) @ drop (Suc i) (pending w)\<rparr>"
  using assms by (simp add: settle_put_def cache_put_def)

lemma settle_put_bucket:
  "bucket (settle_put i w) =
     (if i < length (pending w) \<and> put_accepts (fst (pending w ! i)) (snd (pending w ! i)) \<and>
         \<not> storage_full w
      then (bucket w)(req_url (fst (pending w ! i)) \<mapsto> snd (pending w ! i))
      else bucket w)"
proof (cases "i < length (pending w)")
  case False
  then show ?thesis by (simp add: settle_put_def)
next
  case True
  obtain request res where p: "pending w ! i = (request, res)" by (cases "pending w ! i")
  show ?thesis
  proof (cases "put_accepts request res \<and> \<not> storage_full w")
    case True
    with settle_put_accepted [OF \<open>i < length (pending w)\<close> p] p \<open>i < length (pending w)\<close>
    show ?thesis by (simp add: bucket_def bucket_after_store del: fun_upd_apply)
  next
    case False
    then have r: "\<not> put_accepts request res \<or> storage_full w" by blast
    have "bucket (settle_put i w) = bucket w"
      using settle_put_refused [OF \<open>i < length (pending w)\<close> p r]
      by (simp add: bucket_def cache_of_caches_open)
    with False p show ?thesis by auto
  qed
qed

text \<open>A put that settles removes no URL from the bucket, and changes the entry of no URL
  but its own.\<close>

lemma settle_put_keeps_urls:
  "bucket w u \<noteq> None \<Longrightarrow> bucket (settle_put i w) u \<noteq> None"
  by (simp add: settle_put_bucket)

lemma settle_put_other_url:
  "i < length (pending w) \<Longrightarrow> u \<noteq> req_url (fst (pending w ! i)) \<Longrightarrow>
   bucket (settle_put i w) u = bucket w u"
  by (simp add: settle_put_bucket)



subsection \<open>install\<close>

lemma map_of_put_all:
  "map_of st name \<noteq> None \<Longrightarrow> map_of (put_all name ps st) name \<noteq> None"
proof (induction ps arbitrary: st)
  case Nil
  then show ?case by simp
next
  case (Cons p ps)
  obtain u r where p: "p = (u, r)" by (cases p)
  from Cons.prems have "map_of (cache_store name u r st) name \<noteq> None"
    by (auto simp: map_of_cache_store split: option.splits)
  then show ?case using Cons.IH p by simp
qed

lemma cache_of_put_all:
  "map_of st name \<noteq> None \<Longrightarrow>
   cache_of (put_all name ps st) name u =
     (case map_of (rev ps) u of Some r \<Rightarrow> Some r | None \<Rightarrow> cache_of st name u)"
proof (induction ps arbitrary: st)
  case Nil
  then show ?case by simp
next
  case (Cons p ps)
  obtain u0 r0 where p: "p = (u0, r0)" by (cases p)
  let ?st = "cache_store name u0 r0 st"
  from Cons.prems have ex: "map_of ?st name \<noteq> None"
    by (auto simp: map_of_cache_store split: option.splits)
  have c: "cache_of ?st name u = (if u = u0 then Some r0 else cache_of st name u)"
    using Cons.prems by (simp add: cache_of_cache_store)
  have "cache_of (put_all name ps ?st) name u =
     (case map_of (rev ps) u of Some r \<Rightarrow> Some r | None \<Rightarrow> cache_of ?st name u)"
    using ex by (rule Cons.IH)
  then show ?case using p c
    by (auto simp: map_add_def split: option.splits)
qed

lemma fetch_all_Some:
  "fetch_all net us = Some ps \<Longrightarrow>
   map fst ps = us \<and> (\<forall>(u, r) \<in> set ps. net (get_request u) = Some r \<and> res_ok r)"
  by (induction us arbitrary: ps) (auto split: option.splits if_splits)

lemma fetch_all_Some_iff:
  "(\<exists>ps. fetch_all net us = Some ps) \<longleftrightarrow>
   (\<forall>u \<in> set us. \<exists>r. net (get_request u) = Some r \<and> res_ok r \<and> put_accepts (get_request u) r)"
  by (induction us) (auto split: option.splits if_splits)

lemma map_of_fetched:
  assumes "map fst ps = us" and "\<forall>(u, r) \<in> set ps. net (get_request u) = Some r \<and> res_ok r"
  shows "map_of (rev ps) u = (if u \<in> set us then net (get_request u) else None)"
proof (cases "u \<in> set us")
  case False
  have "set us = fst ` set ps" unfolding assms(1) [symmetric] by simp
  with False have "u \<notin> fst ` set (rev ps)" by simp
  then have "map_of (rev ps) u = None" by (simp add: map_of_eq_None_iff)
  with False show ?thesis by simp
next
  case True
  have "set us = fst ` set ps" unfolding assms(1) [symmetric] by simp
  with True have "u \<in> fst ` set (rev ps)" by simp
  then obtain r where r: "map_of (rev ps) u = Some r"
    by (cases "map_of (rev ps) u") (auto simp: map_of_eq_None_iff)
  then have "(u, r) \<in> set ps" using map_of_SomeD by fastforce
  with assms(2) have "net (get_request u) = Some r" by auto
  with r True show ?thesis by simp
qed

lemma install_success_iff:
  "fst (install_handler net w) \<longleftrightarrow>
     \<not> storage_full w \<and>
     (\<forall>u \<in> set ASSETS. \<exists>r. net (get_request u) = Some r \<and> res_ok r \<and>
        put_accepts (get_request u) r)"
proof -
  have "ASSETS \<noteq> []" by (simp add: ASSETS_def)
  then have "fst (install_handler net w) \<longleftrightarrow>
      \<not> storage_full w \<and> (\<exists>ps. fetch_all net ASSETS = Some ps)"
    by (cases "fetch_all net ASSETS") (simp_all add: install_handler_def add_all_def Let_def)
  then show ?thesis by (simp only: fetch_all_Some_iff)
qed


lemma install_success_bucket:
  assumes "fst (install_handler net w)"
  shows "bucket (snd (install_handler net w)) u =
           (if u \<in> set ASSETS then net (get_request u) else bucket w u)"
proof -
  have ne: "ASSETS \<noteq> []" by (simp add: ASSETS_def)
  from assms ne obtain ps where ps: "fetch_all net ASSETS = Some ps" and room: "\<not> storage_full w"
    by (auto simp: install_handler_def add_all_def Let_def split: option.splits if_splits)
  have st: "storage (snd (install_handler net w)) =
      put_all CACHE ps (caches_open CACHE (storage w))"
    using ps room by (simp add: install_handler_def add_all_def Let_def)
  have ex: "map_of (caches_open CACHE (storage w)) CACHE \<noteq> None"
    by (simp add: map_of_caches_open)
  from fetch_all_Some [OF ps]
  have m: "map_of (rev ps) u = (if u \<in> set ASSETS then net (get_request u) else None)"
    by (intro map_of_fetched) auto
  have "bucket (snd (install_handler net w)) u =
     (case map_of (rev ps) u of Some r \<Rightarrow> Some r
      | None \<Rightarrow> cache_of (caches_open CACHE (storage w)) CACHE u)"
    unfolding bucket_def st using ex by (rule cache_of_put_all)
  also have "\<dots> = (if u \<in> set ASSETS then net (get_request u) else bucket w u)"
  proof (cases "u \<in> set ASSETS")
    case True
    from fetch_all_Some_iff [of net ASSETS] ps True
    obtain r where "net (get_request u) = Some r" by blast
    with True m show ?thesis by simp
  next
    case False
    with m show ?thesis by (simp add: bucket_def cache_of_caches_open)
  qed
  finally show ?thesis .
qed


subsection \<open>push and notificationclick\<close>


lemma push_defaults:
  assumes "v \<noteq> JNull" and "v \<noteq> JUndefined"
  shows "\<exists>t b u. get_prop v ''title'' = Inr t \<and> get_prop v ''body'' = Inr b \<and>
           get_prop v ''url'' = Inr u \<and>
           push_handler (Json v) w =
             Inr (w\<lparr>actions := actions w @
               [ShowNotification
                 \<lparr>title = (if truthy t then t else JStr ''BailSaaS''),
                  body = (if truthy b then b else JStr ''''),
                  data = JObj [(''url'', if truthy u then u else JStr ''/'')],
                  icon = ''/static/icons/icon-192.png'',
                  badge = ''/static/icons/icon-192.png''\<rparr>]\<rparr>)"
  using assms by (cases v) (simp_all add: push_handler_def push_payload_def js_or_def)

lemma push_shows_default_notification:
  "data_json d = Inl e \<Longrightarrow>
   push_handler d w = Inr (w\<lparr>actions := actions w @ [ShowNotification default_notification]\<rparr>)"
  by (simp add: push_handler_def push_payload_def js_or_def default_notification_def)

lemma click_url_default:
  "get_prop_opt (data n) ''url'' = v \<Longrightarrow> click_url n = (if truthy v then v else JStr ''/'')"
  by (simp add: click_url_def js_or_def)

lemma click_loop_focus:
  "\<exists>c \<in> set list. JStr (client_url c) = url \<Longrightarrow>
   \<exists>c \<in> set list. JStr (client_url c) = url \<and>
     find (\<lambda>c. JStr (client_url c) = url) list = Some c \<and> click_loop url list = Focus c"
  by (induction list) auto

lemma click_loop_open:
  "\<forall>c \<in> set list. JStr (client_url c) \<noteq> url \<Longrightarrow> click_loop url list = OpenWindow url"
  by (induction list) auto

text \<open>
  What the handler does, in the terms of its own comparison: the first window client
  whose URL is \<^verbatim>\<open>===\<close> the target is focused and no window is opened, and a window
  is opened at the target when there is none.
\<close>

lemma click_focus_or_open:
  "((\<exists>c \<in> set list. JStr (client_url c) = click_url n) \<longrightarrow>
      (\<exists>c \<in> set list. JStr (client_url c) = click_url n \<and>
         find (\<lambda>c. JStr (client_url c) = click_url n) list = Some c \<and>
         notificationclick_handler list n w =
           w\<lparr>actions := actions w @ [CloseNotification n, Focus c]\<rparr>)) \<and>
   ((\<forall>c \<in> set list. JStr (client_url c) \<noteq> click_url n) \<longrightarrow>
      notificationclick_handler list n w =
        w\<lparr>actions := actions w @ [CloseNotification n, OpenWindow (click_url n)]\<rparr>)"
proof (intro conjI impI)
  assume "\<exists>c \<in> set list. JStr (client_url c) = click_url n"
  then obtain c where "c \<in> set list" "JStr (client_url c) = click_url n"
    "find (\<lambda>c. JStr (client_url c) = click_url n) list = Some c"
    "click_loop (click_url n) list = Focus c"
    using click_loop_focus by blast
  then show "\<exists>c \<in> set list. JStr (client_url c) = click_url n \<and>
         find (\<lambda>c. JStr (client_url c) = click_url n) list = Some c \<and>
         notificationclick_handler list n w =
           w\<lparr>actions := actions w @ [CloseNotification n, Focus c]\<rparr>"
    by (auto simp: notificationclick_handler_def)
next
  assume "\<forall>c \<in> set list. JStr (client_url c) \<noteq> click_url n"
  then have "click_loop (click_url n) list = OpenWindow (click_url n)"
    by (rule click_loop_open)
  then show "notificationclick_handler list n w =
        w\<lparr>actions := actions w @ [CloseNotification n, OpenWindow (click_url n)]\<rparr>"
    by (simp add: notificationclick_handler_def)
qed

text \<open>
  The browser reports the URL of a window in full, with its scheme. A target that is a
  path is therefore the URL of no window, whatever the windows show: the handler opens a
  window for it.
\<close>

lemma click_path_target_opens_window:
  assumes "take 1 t = ''/''" and "\<forall>c \<in> set list. take 1 (client_url c) \<noteq> ''/''"
    and "click_url n = JStr t"
  shows "notificationclick_handler list n w =
           w\<lparr>actions := actions w @ [CloseNotification n, OpenWindow (JStr t)]\<rparr>"
proof -
  from assms(1,2) have "\<forall>c \<in> set list. JStr (client_url c) \<noteq> JStr t" by auto
  then have "click_loop (JStr t) list = OpenWindow (JStr t)" by (rule click_loop_open)
  with assms(3) show ?thesis by (simp add: notificationclick_handler_def)
qed

section \<open>The properties of the specification\<close>

subsection \<open>Cache first, then network\<close>

text \<open>
  C1, as amended. A GET request whose URL the bucket holds is answered from the cache
  storage and the world is left as it was: nothing is fetched from the network, whatever
  the network would answer. The response is the entry of the first cache, in the order of
  creation, that holds the URL: the one of a cache created before the bucket when there is
  one, the bucket's own otherwise.
\<close>

theorem fetch_cached:
  assumes "req_method request = ''GET''" and "bucket w (req_url request) = Some r0"
  shows "fetch_handler net request w =
           (Responded (case caches_match (earlier_caches CACHE (storage w)) request of
                         Some r \<Rightarrow> r
                       | None \<Rightarrow> r0),
            w)"
proof -
  from assms(2) obtain c0 where "map_of (storage w) CACHE = Some c0" "c0 (req_url request) = Some r0"
    by (auto simp: bucket_def cache_of_def split: option.splits)
  then have "caches_match (storage w) request =
      Some (case caches_match (earlier_caches CACHE (storage w)) request of
              Some r \<Rightarrow> r
            | None \<Rightarrow> r0)"
    using assms(1) by (rule caches_match_bucket_hit)
  then show ?thesis using assms(1) by (simp add: fetch_handler_def)
qed

theorem fetch_cached_witness:
  "req_method (get_request ''/'') = ''GET'' \<and>
   bucket used_world (req_url (get_request ''/'')) = Some stale \<and>
   fetch_handler offline (get_request ''/'') used_world = (Responded stale, used_world) \<and>
   bucket shadowed_world (req_url (get_request ''/'')) = Some page \<and>
   fetch_handler offline (get_request ''/'') shadowed_world = (Responded stale, shadowed_world)"
proof -
  have a: "bucket used_world (req_url (get_request ''/'')) = Some stale"
    by (simp add: get_request_def used_world_def bucket_def cache_of_def)
  have b: "bucket shadowed_world (req_url (get_request ''/'')) = Some page"
    by (simp add: get_request_def shadowed_world_def bucket_def cache_of_def CACHE_def)
  have g: "req_method (get_request ''/'') = ''GET''"
    by (simp add: get_request_def)
  from fetch_cached [OF g a, of offline] fetch_cached [OF g b, of offline] a b g
  show ?thesis
    by (simp add: used_world_def shadowed_world_def earlier_caches_def CACHE_def
        cache_match_def get_request_def)
qed

text \<open>
  C1 as stated fails when a cache created before the bucket holds the URL too: the bucket
  holds one response for the start page and the handler answers with another, the one of
  the older cache.
\<close>

theorem fetch_cached_counterexample:
  "req_method (get_request ''/'') = ''GET'' \<and>
   bucket shadowed_world (req_url (get_request ''/'')) = Some page \<and>
   fetch_handler online (get_request ''/'') shadowed_world = (Responded stale, shadowed_world) \<and>
   stale \<noteq> page"
  by (simp add: get_request_def shadowed_world_def bucket_def cache_of_def CACHE_def
      fetch_handler_def cache_match_def stale_def page_def)







text \<open>
  C4. A request whose method is not GET is not answered by the handler (no
  \<^verbatim>\<open>respondWith\<close>), and the world, with the cache bucket in it, is left as it was.
\<close>

theorem fetch_non_get:
  "req_method request \<noteq> ''GET'' \<Longrightarrow> fetch_handler net request w = (PassThrough, w)"
  by (simp add: fetch_handler_def)

theorem fetch_non_get_witness:
  "req_method \<lparr>req_method = ''POST'', req_url = ''/api''\<rparr> \<noteq> ''GET'' \<and>
   fetch_handler online \<lparr>req_method = ''POST'', req_url = ''/api''\<rparr> used_world =
     (PassThrough, used_world)"
  using fetch_non_get [of "\<lparr>req_method = ''POST'', req_url = ''/api''\<rparr>" online used_world]
  by simp

subsection \<open>Installation\<close>

text \<open>
  C3, as amended. After an installation that succeeds, the bucket holds for each URL of
  \<open>ASSETS\<close> the response just fetched for it, which has an ok status, and for every
  other URL what it held before: its URLs are those it had together with those of
  \<open>ASSETS\<close>, and exactly those of \<open>ASSETS\<close> when it was empty or not there before.
\<close>

theorem install_bucket:
  assumes "fst (install_handler net w)"
  shows "(\<forall>u \<in> set ASSETS. \<exists>r. net (get_request u) = Some r \<and> res_ok r \<and>
            bucket (snd (install_handler net w)) u = Some r) \<and>
         (\<forall>u. u \<notin> set ASSETS \<longrightarrow> bucket (snd (install_handler net w)) u = bucket w u) \<and>
         dom (bucket (snd (install_handler net w))) = dom (bucket w) \<union> set ASSETS \<and>
         (dom (bucket w) = {} \<longrightarrow> dom (bucket (snd (install_handler net w))) = set ASSETS)"
proof -
  note b = install_success_bucket [OF assms]
  from assms have ok: "\<forall>u \<in> set ASSETS. \<exists>r. net (get_request u) = Some r \<and> res_ok r \<and>
        put_accepts (get_request u) r"
    by (simp add: install_success_iff)
  have 1: "\<forall>u \<in> set ASSETS. \<exists>r. net (get_request u) = Some r \<and> res_ok r \<and>
            bucket (snd (install_handler net w)) u = Some r"
    using ok b by auto
  have 2: "\<forall>u. u \<notin> set ASSETS \<longrightarrow> bucket (snd (install_handler net w)) u = bucket w u"
    using b by simp
  have 3: "dom (bucket (snd (install_handler net w))) = dom (bucket w) \<union> set ASSETS"
  proof (rule set_eqI)
    fix u
    show "u \<in> dom (bucket (snd (install_handler net w))) \<longleftrightarrow> u \<in> dom (bucket w) \<union> set ASSETS"
      using 1 2 by (cases "u \<in> set ASSETS") (auto simp: dom_def)
  qed
  from 1 2 3 show ?thesis by simp
qed

theorem install_bucket_witness:
  "fst (install_handler online fresh_world) \<and>
   bucket (snd (install_handler online fresh_world)) ''/'' = Some page \<and>
   bucket (snd (install_handler online fresh_world)) ''/static/manifest.webmanifest'' = Some page \<and>
   bucket (snd (install_handler online fresh_world)) ''/app.js'' = None \<and>
   dom (bucket (snd (install_handler online fresh_world))) = {''/'', ''/static/manifest.webmanifest''}"
proof -
  have ok: "fst (install_handler online fresh_world)"
    by (simp add: install_success_iff online_def page_def res_ok_def put_accepts_def
        get_request_def http_url_def ASSETS_def fresh_world_def)
  have e: "bucket fresh_world = Map.empty"
    by (simp add: bucket_def fresh_world_def cache_of_def)
  from install_bucket [OF ok] ok e show ?thesis
    by (auto simp: ASSETS_def online_def)
qed

text \<open>
  C3 as stated fails: \<^verbatim>\<open>addAll\<close> adds to the bucket and nothing empties it. When the
  worker is installed again over a bucket that holds more than the assets, the bucket
  holds more than the asset list afterwards.
\<close>

theorem install_bucket_counterexample:
  "fst (install_handler online used_world) \<and>
   bucket (snd (install_handler online used_world)) ''/app.js'' = Some page \<and>
   ''/app.js'' \<notin> set ASSETS"
  by (simp add: install_handler_def add_all_def Let_def ASSETS_def online_def page_def res_ok_def
      used_world_def caches_open_def cache_store_def get_request_def bucket_def cache_of_def
      put_accepts_def http_url_def)

subsection \<open>Notifications\<close>

text \<open>
  C5. A push event whose payload parses to the object with title \<^verbatim>\<open>T\<close>, body
  \<^verbatim>\<open>B\<close> and url \<^verbatim>\<open>/x\<close> adds one call to the log: a notification shown with title
  \<^verbatim>\<open>T\<close> and body \<^verbatim>\<open>B\<close>, whose data holds the url \<^verbatim>\<open>/x\<close>, the target of a click
  on it.
\<close>

theorem push_example:
  "push_handler
     (Json (JObj [(''title'', JStr ''T''), (''body'', JStr ''B''), (''url'', JStr ''/x'')])) w =
   Inr (w\<lparr>actions := actions w @
          [ShowNotification
             \<lparr>title = JStr ''T'', body = JStr ''B'', data = JObj [(''url'', JStr ''/x'')],
              icon = ''/static/icons/icon-192.png'',
              badge = ''/static/icons/icon-192.png''\<rparr>]\<rparr>) \<and>
   click_url \<lparr>title = JStr ''T'', body = JStr ''B'', data = JObj [(''url'', JStr ''/x'')],
              icon = ''/static/icons/icon-192.png'',
              badge = ''/static/icons/icon-192.png''\<rparr> = JStr ''/x''"
  by (simp add: push_handler_def push_payload_def js_or_def click_url_def get_prop_opt_def)

text \<open>
  C6. When \<^verbatim>\<open>e.data.json()\<close> throws (the payload is not JSON, or there is none) the
  handler does not fail: it shows one notification with the title \<^verbatim>\<open>BailSaaS\<close>, an
  empty body and the click target \<^verbatim>\<open>/\<close>.
\<close>

theorem push_unparsable:
  "data_json d = Inl e \<Longrightarrow>
   push_handler d w =
   Inr (w\<lparr>actions := actions w @
          [ShowNotification
             \<lparr>title = JStr ''BailSaaS'', body = JStr '''', data = JObj [(''url'', JStr ''/'')],
              icon = ''/static/icons/icon-192.png'',
              badge = ''/static/icons/icon-192.png''\<rparr>]\<rparr>) \<and>
   click_url \<lparr>title = JStr ''BailSaaS'', body = JStr '''', data = JObj [(''url'', JStr ''/'')],
              icon = ''/static/icons/icon-192.png'',
              badge = ''/static/icons/icon-192.png''\<rparr> = JStr ''/''"
  by (simp add: push_handler_def push_payload_def js_or_def click_url_def get_prop_opt_def)

theorem push_unparsable_witness:
  "data_json NotJson = Inl SyntaxError \<and>
   push_handler NotJson fresh_world =
   Inr \<lparr>storage = [], actions =
          [ShowNotification
             \<lparr>title = JStr ''BailSaaS'', body = JStr '''', data = JObj [(''url'', JStr ''/'')],
              icon = ''/static/icons/icon-192.png'',
              badge = ''/static/icons/icon-192.png''\<rparr>], pending = [],
        storage_full = False\<rparr>"
  using push_unparsable [of NotJson SyntaxError fresh_world]
  by (simp add: fresh_world_def)

text \<open>
  C10. The payload \<^verbatim>\<open>null\<close> parses, so the \<^verbatim>\<open>catch\<close> does not replace it, and
  reading its \<^verbatim>\<open>title\<close> throws outside the \<^verbatim>\<open>try\<close>: the handler fails and no
  notification is shown, where the claim promises the defaults. For every other parsed
  payload the defaults are applied field by field, by falsiness, as the lemma on the
  defaults of the push handler above says.
\<close>

theorem push_null_payload:
  "push_handler (Json JNull) w = Inl TypeError"
  by (simp add: push_handler_def push_payload_def)

text \<open>
  C7. The claim fails on the code where the target is a path. The notification that the
  push handler shows by default has the target \<^verbatim>\<open>/\<close>; a window of the application
  shows that very URL, \<^verbatim>\<open>https://app.example/\<close>; the handler compares the two strings
  with \<^verbatim>\<open>===\<close>, finds no window, and opens a second one where the claim has the
  open window focused. The same happens for the target \<^verbatim>\<open>/cases\<close> with the window
  at \<^verbatim>\<open>https://app.example/cases\<close> open.
\<close>

theorem click_shown_target_opens_second_window:
  "click_url default_notification = JStr ''/'' \<and>
   shows_url ''https://app.example'' home_window (click_url default_notification) \<and>
   notificationclick_handler [home_window, cases_window] default_notification fresh_world =
     fresh_world\<lparr>actions :=
       [CloseNotification default_notification, OpenWindow (JStr ''/'')]\<rparr> \<and>
   click_url (cases_notification ''/cases'') = JStr ''/cases'' \<and>
   shows_url ''https://app.example'' cases_window (click_url (cases_notification ''/cases'')) \<and>
   notificationclick_handler [home_window, cases_window] (cases_notification ''/cases'')
       fresh_world =
     fresh_world\<lparr>actions :=
       [CloseNotification (cases_notification ''/cases''), OpenWindow (JStr ''/cases'')]\<rparr>"
proof -
  have u1: "click_url default_notification = JStr ''/''"
    by (simp add: click_url_def default_notification_def get_prop_opt_def js_or_def)
  have u2: "click_url (cases_notification ''/cases'') = JStr ''/cases''"
    by (simp add: click_url_def cases_notification_def get_prop_opt_def js_or_def)
  have s1: "shows_url ''https://app.example'' home_window (JStr ''/'')"
    and s2: "shows_url ''https://app.example'' cases_window (JStr ''/cases'')"
    by (simp_all add: shows_url_def resolve_url_def home_window_def cases_window_def)
  have h1: "notificationclick_handler [home_window, cases_window] default_notification fresh_world =
     fresh_world\<lparr>actions :=
       [CloseNotification default_notification, OpenWindow (JStr ''/'')]\<rparr>"
    by (simp add: notificationclick_handler_def u1 home_window_def cases_window_def
        fresh_world_def)
  have h2: "notificationclick_handler [home_window, cases_window] (cases_notification ''/cases'')
       fresh_world =
     fresh_world\<lparr>actions :=
       [CloseNotification (cases_notification ''/cases''), OpenWindow (JStr ''/cases'')]\<rparr>"
    by (simp add: notificationclick_handler_def u2 home_window_def cases_window_def
        fresh_world_def)
  from u1 u2 s1 s2 h1 h2 show ?thesis by simp
qed

subsection \<open>The bucket is never pruned\<close>




end
